theory Spec2Isabelle
  imports Main
begin

unbundle bit_operations_syntax

section \<open>The external collaborators\<close>

text \<open>
  \<^verbatim>\<open>emuai.py\<close> is glue between three libraries: the emulation engine
  (\<^verbatim>\<open>nes_py.NESEnv\<close>), the image conversion (\<^verbatim>\<open>PIL\<close>) and the window
  toolkit (\<^verbatim>\<open>tkinter\<close>). None of them is part of the program, so every call into
  them is a field of the record \<open>ops\<close>, and every statement below holds for all
  values of that record.

  A value of type \<open>exn\<close> is an instance of Python's class \<^verbatim>\<open>Exception\<close>, which is
  what the program's \<^verbatim>\<open>except Exception\<close> clauses catch. \<open>AttributeError\<close> is the one the
  interpreter raises for an attribute access on \<^verbatim>\<open>None\<close>; \<open>LibraryError\<close> is any
  exception raised inside a library, with its message.
\<close>

datatype exn = AttributeError | LibraryError string

text \<open>
  An engine session has an abstract state \<open>'e\<close>; a frame buffer is an abstract value
  \<open>'f\<close>. A call that mutates the session returns the new session state together with
  the exception it raised, if any. The attribute \<^verbatim>\<open>env.screen\<close> is the current frame
  or \<^verbatim>\<open>None\<close>. The three calls of \<^verbatim>\<open>render_frame\<close> either succeed or raise.
\<close>

record ('e, 'f) ops =
  NESEnv :: "string \<Rightarrow> exn + 'e"
  env_reset :: "'e \<Rightarrow> 'e \<times> exn option"
  env_step :: "int \<Rightarrow> 'e \<Rightarrow> 'e \<times> exn option"
  env_screen :: "'e \<Rightarrow> 'f option"
  env_close :: "'e \<Rightarrow> 'e \<times> exn option"
  fromarray :: "'f \<Rightarrow> exn option"
  PhotoImage :: "'f \<Rightarrow> exn option"
  create_image :: "'f \<Rightarrow> exn option"

text \<open>The lines the program prints, one constructor for each \<^verbatim>\<open>print\<close> statement.\<close>

datatype msg =
    Initialized string
  | Init_error exn
  | ROM_reset
  | Frame_is_None_warning
  | Step_failed exn
  | Closed_environment
  | Got_initial_frame
  | Initial_frame_None
  | Frame_from_step_None
  | Render_failed exn

text \<open>
  The trace records what a stub engine and a stub window would observe, in order: each
  call into the engine with the session it was made on, each printed line, each frame
  drawn on the canvas, each error dialog, and each exception that leaves a callback
  (which Tk reports and then goes on with its main loop).
\<close>

datatype ('e, 'f) event =
    Call_NESEnv string
  | Call_reset 'e
  | Call_step 'e int
  | Call_close 'e
  | Print msg
  | Paint 'f
  | Show_error exn
  | Uncaught exn

section \<open>NESSystem\<close>

record 'e NESSystem =
  rom_path :: string
  env :: "'e option"

text \<open>\<^verbatim>\<open>os.path.basename\<close> on a POSIX path: what follows the last slash.\<close>

definition basename :: "string \<Rightarrow> string" where
  "basename p = rev (takeWhile (\<lambda>c. c \<noteq> CHR ''/'') (rev p))"

text \<open>
  A method returns its value or the exception that leaves it (\<open>Inl\<close>), the object
  after the call, and the events of the call.
\<close>

type_synonym ('a, 'e, 'f) method_result = "(exn + 'a) \<times> 'e NESSystem \<times> ('e, 'f) event list"

text \<open>
  The constructor: the engine session is opened and reset; a failure of either is
  printed and raised again, so no object is returned.
\<close>

definition NESSystem_init ::
  "('e, 'f) ops \<Rightarrow> string \<Rightarrow> (exn + 'e NESSystem) \<times> ('e, 'f) event list" where
  "NESSystem_init E path =
     (case NESEnv E path of
        Inl x \<Rightarrow> (Inl x, [Call_NESEnv path, Print (Init_error x)])
      | Inr e \<Rightarrow>
          (case env_reset E e of
             (e', Some x) \<Rightarrow> (Inl x, [Call_NESEnv path, Call_reset e, Print (Init_error x)])
           | (e', None) \<Rightarrow>
               (Inr \<lparr>rom_path = path, env = Some e'\<rparr>,
                [Call_NESEnv path, Call_reset e, Print (Initialized (basename path))])))"

definition NESSystem_reset :: "('e, 'f) ops \<Rightarrow> 'e NESSystem \<Rightarrow> (unit, 'e, 'f) method_result" where
  "NESSystem_reset E h =
     (case env h of
        None \<Rightarrow> (Inr (), h, [])
      | Some e \<Rightarrow>
          (case env_reset E e of
             (e', Some x) \<Rightarrow> (Inl x, h\<lparr>env := Some e'\<rparr>, [Call_reset e])
           | (e', None) \<Rightarrow> (Inr (), h\<lparr>env := Some e'\<rparr>, [Call_reset e, Print ROM_reset])))"

text \<open>
  The body of the \<^verbatim>\<open>try\<close> block of \<^verbatim>\<open>step\<close>: it raises when \<^verbatim>\<open>self.env\<close> is
  \<^verbatim>\<open>None\<close> or when the engine raises, and otherwise returns the current frame with
  \<^verbatim>\<open>False\<close>.
\<close>

definition step_try ::
  "('e, 'f) ops \<Rightarrow> int \<Rightarrow> 'e NESSystem \<Rightarrow> ('f option \<times> bool, 'e, 'f) method_result" where
  "step_try E action h =
     (case env h of
        None \<Rightarrow> (Inl AttributeError, h, [])
      | Some e \<Rightarrow>
          (case env_step E action e of
             (e', Some x) \<Rightarrow> (Inl x, h\<lparr>env := Some e'\<rparr>, [Call_step e action])
           | (e', None) \<Rightarrow>
               (case env_screen E e' of
                  None \<Rightarrow>
                    (Inr (None, False), h\<lparr>env := Some e'\<rparr>,
                     [Call_step e action, Print Frame_is_None_warning])
                | Some f \<Rightarrow> (Inr (Some f, False), h\<lparr>env := Some e'\<rparr>, [Call_step e action]))))"

text \<open>\<^verbatim>\<open>step\<close>: the \<^verbatim>\<open>try\<close> block under its \<^verbatim>\<open>except Exception\<close> handler.\<close>

definition NESSystem_step ::
  "('e, 'f) ops \<Rightarrow> int \<Rightarrow> 'e NESSystem \<Rightarrow> ('f option \<times> bool, 'e, 'f) method_result" where
  "NESSystem_step E action h =
     (case step_try E action h of
        (Inl x, h', es) \<Rightarrow> (Inr (None, True), h', es @ [Print (Step_failed x)])
      | (Inr r, h', es) \<Rightarrow> (Inr r, h', es))"

definition NESSystem_close :: "('e, 'f) ops \<Rightarrow> 'e NESSystem \<Rightarrow> (unit, 'e, 'f) method_result" where
  "NESSystem_close E h =
     (case env h of
        None \<Rightarrow> (Inr (), h, [])
      | Some e \<Rightarrow>
          (case env_close E e of
             (e', Some x) \<Rightarrow> (Inl x, h\<lparr>env := Some e'\<rparr>, [Call_close e])
           | (e', None) \<Rightarrow> (Inr (), h\<lparr>env := None\<rparr>, [Call_close e, Print Closed_environment])))"

text \<open>The expression \<^verbatim>\<open>self.nes.env.screen\<close> of the application.\<close>

definition NESSystem_screen :: "('e, 'f) ops \<Rightarrow> 'e NESSystem \<Rightarrow> exn + 'f option" where
  "NESSystem_screen E h = (case env h of None \<Rightarrow> Inl AttributeError | Some e \<Rightarrow> Inr (env_screen E e))"

section \<open>NesticleTkApp\<close>

text \<open>
  The fields of the application object, the widget properties the program sets, and the
  part of Tk's state the program depends on: the timers scheduled with
  \<^verbatim>\<open>after\<close> and not yet fired or cancelled. Tk's timer identifiers are non-empty
  strings, so \<^verbatim>\<open>if self.after_id\<close> tests for \<^verbatim>\<open>None\<close>; they are numbered here.
  The Python set \<^verbatim>\<open>keys_pressed\<close> is a list without duplicates, whose order stands
  for the iteration order of the set.
\<close>

record ('e, 'f) world =
  nes :: "'e NESSystem option"
  current_action :: int
  after_id :: "nat option"
  frame_image :: "'f option"
  keys_pressed :: "string list"
  start_btn_text :: string
  start_btn_enabled :: bool
  reset_btn_enabled :: bool
  status :: string
  timers :: "nat set"
  next_timer :: nat
  destroyed :: bool
  trace :: "('e, 'f) event list"

definition init_world :: "('e, 'f) world" where
  "init_world =
     \<lparr>nes = None, current_action = 0, after_id = None, frame_image = None,
      keys_pressed = [], start_btn_text = ''Start'', start_btn_enabled = False,
      reset_btn_enabled = False, status = ''No ROM loaded'', timers = {}, next_timer = 0,
      destroyed = False, trace = []\<rparr>"

definition keymap :: "string \<rightharpoonup> int" where
  "keymap = map_of
     [(''Right'', 1), (''Left'', 2), (''Down'', 4), (''Up'', 8),
      (''Return'', 16), (''Shift_L'', 32), (''x'', 64), (''z'', 128)]"

definition emit :: "('e, 'f) event list \<Rightarrow> ('e, 'f) world \<Rightarrow> ('e, 'f) world" where
  "emit es w = w\<lparr>trace := trace w @ es\<rparr>"

text \<open>\<^verbatim>\<open>master.after_cancel(self.after_id)\<close>; cancelling a timer that has fired does nothing.\<close>

definition after_cancel :: "nat \<Rightarrow> ('e, 'f) world \<Rightarrow> ('e, 'f) world" where
  "after_cancel i w = w\<lparr>timers := timers w - {i}\<rparr>"

text \<open>\<^verbatim>\<open>self.after_id = self.master.after(16, self.schedule_frame)\<close>\<close>

definition after_schedule :: "('e, 'f) world \<Rightarrow> ('e, 'f) world" where
  "after_schedule w =
     w\<lparr>after_id := Some (next_timer w), timers := insert (next_timer w) (timers w),
       next_timer := Suc (next_timer w)\<rparr>"

subsection \<open>Keys\<close>

definition update_action :: "('e, 'f) world \<Rightarrow> ('e, 'f) world" where
  "update_action w =
     w\<lparr>current_action :=
         fold (\<lambda>k action. action OR (case keymap k of Some v \<Rightarrow> v | None \<Rightarrow> 0))
           (keys_pressed w) 0\<rparr>"

definition set_add :: "'a \<Rightarrow> 'a list \<Rightarrow> 'a list" where
  "set_add k ks = (if k \<in> set ks then ks else ks @ [k])"

definition on_key_press :: "string \<Rightarrow> ('e, 'f) world \<Rightarrow> ('e, 'f) world" where
  "on_key_press keysym w =
     (if keymap keysym \<noteq> None
      then update_action (w\<lparr>keys_pressed := set_add keysym (keys_pressed w)\<rparr>)
      else w)"

definition on_key_release :: "string \<Rightarrow> ('e, 'f) world \<Rightarrow> ('e, 'f) world" where
  "on_key_release keysym w =
     (if keymap keysym \<noteq> None \<and> keysym \<in> set (keys_pressed w)
      then update_action (w\<lparr>keys_pressed := removeAll keysym (keys_pressed w)\<rparr>)
      else w)"

subsection \<open>Painting\<close>

text \<open>
  A method of the application returns the exception that leaves it, if any, and the
  world after the call. \<open>render_try\<close> is the body of the \<^verbatim>\<open>try\<close> block of
  \<^verbatim>\<open>render_frame\<close>: \<^verbatim>\<open>self.frame_image\<close> is assigned once the conversion has
  succeeded, before the canvas is drawn on.
\<close>

definition render_try :: "('e, 'f) ops \<Rightarrow> 'f \<Rightarrow> ('e, 'f) world \<Rightarrow> exn option \<times> ('e, 'f) world" where
  "render_try E frame w =
     (case fromarray E frame of
        Some x \<Rightarrow> (Some x, w)
      | None \<Rightarrow>
          (case PhotoImage E frame of
             Some x \<Rightarrow> (Some x, w)
           | None \<Rightarrow>
               (case create_image E frame of
                  Some x \<Rightarrow> (Some x, w\<lparr>frame_image := Some frame\<rparr>)
                | None \<Rightarrow> (None, emit [Paint frame] (w\<lparr>frame_image := Some frame\<rparr>)))))"

definition render_frame :: "('e, 'f) ops \<Rightarrow> 'f \<Rightarrow> ('e, 'f) world \<Rightarrow> exn option \<times> ('e, 'f) world" where
  "render_frame E frame w =
     (case render_try E frame w of
        (Some x, w') \<Rightarrow> (None, emit [Print (Render_failed x)] w')
      | (None, w') \<Rightarrow> (None, w'))"

subsection \<open>The frame loop\<close>

definition schedule_frame :: "('e, 'f) ops \<Rightarrow> ('e, 'f) world \<Rightarrow> exn option \<times> ('e, 'f) world" where
  "schedule_frame E w =
     (case nes w of
        None \<Rightarrow> (Some AttributeError, w)
      | Some h \<Rightarrow>
          (case NESSystem_step E (current_action w) h of
             (Inl x, h', es) \<Rightarrow> (Some x, emit es (w\<lparr>nes := Some h'\<rparr>))
           | (Inr (frame, done), h', es) \<Rightarrow>
               (let w1 = emit es (w\<lparr>nes := Some h'\<rparr>) in
                case frame of
                  None \<Rightarrow>
                    (None, (emit [Print Frame_from_step_None] w1)
                             \<lparr>status := ''Frame error'', after_id := None\<rparr>)
                | Some f \<Rightarrow>
                    (case render_frame E f w1 of
                       (Some x, w2) \<Rightarrow> (Some x, w2)
                     | (None, w2) \<Rightarrow>
                         (if \<not> done then (None, after_schedule w2)
                          else (None, w2\<lparr>status := ''Game Over'', start_btn_text := ''Start'',
                                         after_id := None\<rparr>))))))"

definition toggle_run :: "('e, 'f) ops \<Rightarrow> ('e, 'f) world \<Rightarrow> exn option \<times> ('e, 'f) world" where
  "toggle_run E w =
     (case nes w of
        None \<Rightarrow> (None, w)
      | Some h \<Rightarrow>
          (case after_id w of
             Some i \<Rightarrow>
               (None, (after_cancel i w)
                        \<lparr>after_id := None, start_btn_text := ''Start'', status := ''Paused''\<rparr>)
           | None \<Rightarrow> schedule_frame E (w\<lparr>start_btn_text := ''Pause'', status := ''Running''\<rparr>)))"

subsection \<open>Loading, resetting, closing\<close>

text \<open>The \<^verbatim>\<open>try\<close> block of \<^verbatim>\<open>load_rom\<close> and its handler.\<close>

definition load_try :: "('e, 'f) ops \<Rightarrow> string \<Rightarrow> ('e, 'f) world \<Rightarrow> exn option \<times> ('e, 'f) world" where
  "load_try E path w =
     (case NESSystem_init E path of
        (Inl x, es) \<Rightarrow> (Some x, emit es w)
      | (Inr h, es) \<Rightarrow>
          (let w1 = emit es (w\<lparr>nes := Some h\<rparr>) in
           case NESSystem_screen E h of
             Inl x \<Rightarrow> (Some x, w1)
           | Inr frame \<Rightarrow>
               (case (case frame of
                        None \<Rightarrow> (None, emit [Print Initial_frame_None] w1)
                      | Some f \<Rightarrow>
                          (case render_frame E f w1 of
                             (Some x, w2) \<Rightarrow> (Some x, w2)
                           | (None, w2) \<Rightarrow> (None, emit [Print Got_initial_frame] w2))) of
                  (Some x, w3) \<Rightarrow> (Some x, w3)
                | (None, w3) \<Rightarrow>
                    (None, w3\<lparr>status := ''Loaded: '' @ basename path,
                              start_btn_enabled := True, reset_btn_enabled := True\<rparr>))))"

text \<open>
  \<open>path\<close> is what the file dialog returned: the empty string when it was dismissed.
\<close>

definition load_rom :: "('e, 'f) ops \<Rightarrow> string \<Rightarrow> ('e, 'f) world \<Rightarrow> exn option \<times> ('e, 'f) world" where
  "load_rom E path w =
     (if path = [] then (None, w)
      else
        (case (case nes w of
                 None \<Rightarrow> (None, w)
               | Some h \<Rightarrow>
                   (case NESSystem_close E h of
                      (Inl x, h', es) \<Rightarrow> (Some x, emit es (w\<lparr>nes := Some h'\<rparr>))
                    | (Inr u, h', es) \<Rightarrow> (None, emit es (w\<lparr>nes := None\<rparr>)))) of
           (Some x, w1) \<Rightarrow> (Some x, w1)
         | (None, w1) \<Rightarrow>
             (case load_try E path w1 of
                (Some x, w2) \<Rightarrow> (None, (emit [Show_error x] w2)\<lparr>status := ''Load failed''\<rparr>)
              | (None, w2) \<Rightarrow> (None, w2))))"

definition reset_rom :: "('e, 'f) ops \<Rightarrow> ('e, 'f) world \<Rightarrow> exn option \<times> ('e, 'f) world" where
  "reset_rom E w =
     (case nes w of
        None \<Rightarrow> (None, w)
      | Some h \<Rightarrow>
          (let w1 = (case after_id w of
                       Some i \<Rightarrow> (after_cancel i w)\<lparr>after_id := None\<rparr>
                     | None \<Rightarrow> w) in
           case NESSystem_reset E h of
             (Inl x, h', es) \<Rightarrow> (Some x, emit es (w1\<lparr>nes := Some h'\<rparr>))
           | (Inr u, h', es) \<Rightarrow>
               (let w2 = emit es (w1\<lparr>nes := Some h'\<rparr>) in
                case NESSystem_screen E h' of
                  Inl x \<Rightarrow> (Some x, w2)
                | Inr frame \<Rightarrow>
                    (case (case frame of
                             None \<Rightarrow> (None, w2)
                           | Some f \<Rightarrow> render_frame E f w2) of
                       (Some x, w3) \<Rightarrow> (Some x, w3)
                     | (None, w3) \<Rightarrow>
                         (None, w3\<lparr>start_btn_text := ''Start'', status := ''Reset''\<rparr>)))))"

definition on_close :: "('e, 'f) ops \<Rightarrow> ('e, 'f) world \<Rightarrow> exn option \<times> ('e, 'f) world" where
  "on_close E w =
     (let w1 = (case after_id w of Some i \<Rightarrow> after_cancel i w | None \<Rightarrow> w) in
      case nes w1 of
        None \<Rightarrow> (None, w1\<lparr>destroyed := True\<rparr>)
      | Some h \<Rightarrow>
          (case NESSystem_close E h of
             (Inl x, h', es) \<Rightarrow> (Some x, emit es (w1\<lparr>nes := Some h'\<rparr>))
           | (Inr u, h', es) \<Rightarrow>
               (None, (emit es (w1\<lparr>nes := Some h'\<rparr>))\<lparr>destroyed := True\<rparr>)))"

section \<open>The main loop\<close>

text \<open>
  What Tk's main loop delivers to the program: a click on one of the three buttons
  (for Load ROM, together with the path the file dialog returns), a key event with its
  keysym, the firing of a scheduled timer, and the request to close the window. A
  disabled button does not call its command; a timer that fires leaves the set of
  scheduled timers and calls \<^verbatim>\<open>schedule_frame\<close>, the only callback the program ever
  schedules; an exception that leaves a callback is reported and the loop goes on; after
  \<^verbatim>\<open>destroy\<close> nothing is delivered any more.
\<close>

datatype input =
    Click_Load string
  | Click_Start
  | Click_Reset
  | Key_Press string
  | Key_Release string
  | Timer_Fires nat
  | Window_Close

definition report :: "exn option \<times> ('e, 'f) world \<Rightarrow> ('e, 'f) world" where
  "report r = (case r of (None, w) \<Rightarrow> w | (Some x, w) \<Rightarrow> emit [Uncaught x] w)"

definition deliver :: "('e, 'f) ops \<Rightarrow> input \<Rightarrow> ('e, 'f) world \<Rightarrow> ('e, 'f) world" where
  "deliver E i w =
     (if destroyed w then w
      else
        (case i of
           Click_Load path \<Rightarrow> report (load_rom E path w)
         | Click_Start \<Rightarrow> (if start_btn_enabled w then report (toggle_run E w) else w)
         | Click_Reset \<Rightarrow> (if reset_btn_enabled w then report (reset_rom E w) else w)
         | Key_Press k \<Rightarrow> on_key_press k w
         | Key_Release k \<Rightarrow> on_key_release k w
         | Timer_Fires t \<Rightarrow>
             (if t \<in> timers w then report (schedule_frame E (w\<lparr>timers := timers w - {t}\<rparr>)) else w)
         | Window_Close \<Rightarrow> report (on_close E w)))"

definition run :: "('e, 'f) ops \<Rightarrow> input list \<Rightarrow> ('e, 'f) world \<Rightarrow> ('e, 'f) world" where
  "run E inputs w = fold (deliver E) inputs w"

section \<open>Specification-side definitions\<close>

text \<open>
  The controller bitmask as the specification words it: the bitwise OR of the flag
  values of the held keys, with Right = 1, Left = 2, Down = 4, Up = 8, Start (Return) = 16,
  Select (left Shift) = 32, B (x) = 64 and A (z) = 128.
\<close>

definition spec_bitmask :: "string set \<Rightarrow> int" where
  "spec_bitmask S =
     (if ''Right'' \<in> S then 1 else 0) OR (if ''Left'' \<in> S then 2 else 0) OR
     (if ''Down'' \<in> S then 4 else 0) OR (if ''Up'' \<in> S then 8 else 0) OR
     (if ''Return'' \<in> S then 16 else 0) OR (if ''Shift_L'' \<in> S then 32 else 0) OR
     (if ''x'' \<in> S then 64 else 0) OR (if ''z'' \<in> S then 128 else 0)"

text \<open>
  An Emulator Handle is alive from the moment its constructor returns, where the program
  prints \<^verbatim>\<open>Initialized with ROM\<close>, until \<^verbatim>\<open>close\<close> has released its session,
  where the program prints \<^verbatim>\<open>Closed NES environment\<close>. \<open>open_handles\<close> counts the
  handles alive after a trace; \<open>at_most_one c t\<close> says that the count, started at \<open>c\<close>,
  is 0 or 1 before and after every event of \<open>t\<close>.
\<close>

fun handle_delta :: "('e, 'f) event \<Rightarrow> int" where
  "handle_delta (Print (Initialized b)) = 1"
| "handle_delta (Print Closed_environment) = - 1"
| "handle_delta _ = 0"

definition open_handles :: "('e, 'f) event list \<Rightarrow> int" where
  "open_handles t = sum_list (map handle_delta t)"

fun at_most_one :: "int \<Rightarrow> ('e, 'f) event list \<Rightarrow> bool" where
  "at_most_one c [] = (c = 0 \<or> c = 1)"
| "at_most_one c (e # es) = ((c = 0 \<or> c = 1) \<and> at_most_one (c + handle_delta e) es)"

text \<open>
  Two invariants of the main loop. The bitmask is the one \<^verbatim>\<open>update_action\<close> computes
  from the held keys, all of which are mapped; and the handles alive are at most one, the
  one the application refers to when its session is open.
\<close>

definition keys_inv :: "('e, 'f) world \<Rightarrow> bool" where
  "keys_inv w \<longleftrightarrow> update_action w = w \<and> set (keys_pressed w) \<subseteq> dom keymap"

definition handle_inv :: "('e, 'f) world \<Rightarrow> bool" where
  "handle_inv w \<longleftrightarrow>
     at_most_one 0 (trace w) \<and>
     open_handles (trace w) =
       (case nes w of None \<Rightarrow> 0 | Some h \<Rightarrow> (case env h of None \<Rightarrow> 0 | Some e \<Rightarrow> 1))"

section \<open>Stub engines\<close>

text \<open>
  Concrete collaborators on which the program can be run. A session of \<open>stub n\<close> counts
  its \<^verbatim>\<open>step\<close> calls and raises on the \<open>n\<close>-th (never, for \<open>n = 0\<close>); its frame is the
  number of the call that produced it. \<open>stub_blank\<close> has a frame after a reset and none
  after a step, and \<open>stub_nopaint\<close> has a canvas that refuses every image.
\<close>

definition stub :: "nat \<Rightarrow> (nat, nat) ops" where
  "stub n =
     \<lparr>NESEnv = (\<lambda>p. Inr 0),
      env_reset = (\<lambda>e. (e, None)),
      env_step = (\<lambda>a e. (Suc e, if Suc e = n then Some (LibraryError ''boom'') else None)),
      env_screen = (\<lambda>e. Some e),
      env_close = (\<lambda>e. (e, None)),
      fromarray = (\<lambda>f. None),
      PhotoImage = (\<lambda>f. None),
      create_image = (\<lambda>f. None)\<rparr>"

definition stub_blank :: "(nat, nat) ops" where
  "stub_blank = (stub 0)\<lparr>env_screen := (\<lambda>e. if e = 0 then Some 0 else None)\<rparr>"

definition stub_nopaint :: "(nat, nat) ops" where
  "stub_nopaint = (stub 0)\<lparr>create_image := (\<lambda>f. Some (LibraryError ''no canvas''))\<rparr>"

section \<open>Evaluating the model\<close>

lemmas method_defs = NESSystem_init_def NESSystem_reset_def step_try_def NESSystem_step_def
  NESSystem_close_def NESSystem_screen_def emit_def after_cancel_def after_schedule_def
  render_try_def render_frame_def schedule_frame_def toggle_run_def load_try_def load_rom_def
  reset_rom_def on_close_def report_def deliver_def run_def basename_def init_world_def

lemmas stub_defs = stub_def stub_blank_def stub_nopaint_def

section \<open>The Emulator Handle's step\<close>

text \<open>
  Claim C3. For every controller bitmask, when the engine raises an exception during
  \<^verbatim>\<open>step\<close>, the handle's \<^verbatim>\<open>step\<close> returns \<^verbatim>\<open>(None, True)\<close> and no exception leaves
  it; the failure is printed.
\<close>

theorem step_engine_failure_is_done:
  assumes "env h = Some e" and "env_step E action e = (e', Some x)"
  shows "NESSystem_step E action h =
           (Inr (None, True), h\<lparr>env := Some e'\<rparr>, [Call_step e action, Print (Step_failed x)])"
  using assms by (simp add: NESSystem_step_def step_try_def)

theorem step_engine_failure_is_done_witness:
  "env \<lparr>rom_path = ''a.nes'', env = Some (2::nat)\<rparr> = Some 2
   \<and> env_step (stub 3) 17 2 = (3, Some (LibraryError ''boom''))
   \<and> NESSystem_step (stub 3) 17 \<lparr>rom_path = ''a.nes'', env = Some 2\<rparr> =
       (Inr (None, True), \<lparr>rom_path = ''a.nes'', env = Some 3\<rparr>,
        [Call_step 2 17, Print (Step_failed (LibraryError ''boom''))])"
proof -
  have e: "env \<lparr>rom_path = ''a.nes'', env = Some (2::nat)\<rparr> = Some 2"
    by simp
  have s: "env_step (stub 3) 17 2 = (3, Some (LibraryError ''boom''))"
    by (simp add: stub_def)
  show ?thesis
    using step_engine_failure_is_done [OF e s] e s by simp
qed

text \<open>No exception leaves \<^verbatim>\<open>step\<close>, whatever the engine does and whatever the handle's state.\<close>

lemma step_never_raises: "\<exists>r. fst (NESSystem_step E action h) = Inr r"
  by (auto simp: NESSystem_step_def step_try_def split: option.splits prod.splits sum.splits)

text \<open>
  Claim C10. \<^verbatim>\<open>step\<close> returns \<^verbatim>\<open>done = False\<close> on every call in which the engine does
  not raise, whatever the session's state; it returns \<^verbatim>\<open>done = True\<close> only together
  with the frame \<^verbatim>\<open>None\<close>; so it never returns a frame together with \<^verbatim>\<open>done = True\<close>.
\<close>

theorem step_done_only_with_null_frame:
  "(env h = Some e \<and> snd (env_step E action e) = None \<longrightarrow>
      (\<exists>frame. fst (NESSystem_step E action h) = Inr (frame, False)))
   \<and> (\<forall>frame. fst (NESSystem_step E action h) = Inr (frame, True) \<longrightarrow> frame = None)
   \<and> fst (NESSystem_step E action h) \<noteq> Inr (Some f, True)"
  by (auto simp: NESSystem_step_def step_try_def split: option.splits prod.splits sum.splits)

theorem step_done_only_with_null_frame_witness:
  "env \<lparr>rom_path = ''a.nes'', env = Some (0::nat)\<rparr> = Some 0
   \<and> snd (env_step (stub 3) 0 0) = None
   \<and> fst (NESSystem_step (stub 3) 0 \<lparr>rom_path = ''a.nes'', env = Some 0\<rparr>) = Inr (Some 1, False)
   \<and> fst (NESSystem_step (stub 3) 0 \<lparr>rom_path = ''a.nes'', env = Some 2\<rparr>) = Inr (None, True)"
  using step_done_only_with_null_frame
    [of "\<lparr>rom_path = ''a.nes'', env = Some (0::nat)\<rparr>" 0 "stub 3" 0 "1::nat"]
  by (simp add: stub_def NESSystem_step_def step_try_def)

section \<open>The frame loop\<close>

text \<open>
  A tick whose \<^verbatim>\<open>step\<close> yields no frame takes the first branch of
  \<^verbatim>\<open>schedule_frame\<close> and returns from it, whatever \<^verbatim>\<open>done\<close> is: the status line
  becomes \<^verbatim>\<open>Frame error\<close>, no timer is scheduled, and the button is not touched.
\<close>

lemma tick_without_frame:
  assumes "nes w = Some h"
    and "NESSystem_step E (current_action w) h = (Inr (None, done), h', es)"
  shows "schedule_frame E w =
           (None, w\<lparr>nes := Some h', trace := trace w @ es @ [Print Frame_from_step_None],
                    status := ''Frame error'', after_id := None\<rparr>)"
  using assms by (simp add: schedule_frame_def emit_def)

text \<open>So it is when the engine raises during \<^verbatim>\<open>step\<close>.\<close>

lemma tick_when_step_raises:
  assumes "nes w = Some h" and "env h = Some e"
    and "env_step E (current_action w) e = (e', Some x)"
  shows "schedule_frame E w =
           (None, w\<lparr>nes := Some (h\<lparr>env := Some e'\<rparr>),
                    trace := trace w @ [Call_step e (current_action w), Print (Step_failed x),
                                        Print Frame_from_step_None],
                    status := ''Frame error'', after_id := None\<rparr>)"
  using assms by (simp add: schedule_frame_def NESSystem_step_def step_try_def emit_def)

text \<open>
  Claim C1. A stub engine whose \<^verbatim>\<open>step\<close> raises on the third call: a ROM is loaded,
  Start is pressed (the first tick) and the timer fires twice (the second and third
  tick). The trace shows the two paints of the run after the paint of the initial frame,
  and three \<^verbatim>\<open>step\<close> calls; no timer is left. The status line reads
  \<^verbatim>\<open>Frame error\<close>, not \<^verbatim>\<open>Game Over\<close>, and the button still reads \<^verbatim>\<open>Pause\<close>.
\<close>

theorem third_step_raises_run:
  "run (stub 3) [Click_Load ''/roms/game.nes'', Click_Start, Timer_Fires 0, Timer_Fires 1]
     init_world =
   \<lparr>nes = Some \<lparr>rom_path = ''/roms/game.nes'', env = Some 3\<rparr>,
    current_action = 0, after_id = None, frame_image = Some 2,
    keys_pressed = [], start_btn_text = ''Pause'', start_btn_enabled = True,
    reset_btn_enabled = True, status = ''Frame error'', timers = {},
    next_timer = 2, destroyed = False,
    trace =
      [Call_NESEnv ''/roms/game.nes'', Call_reset 0,
       Print (Initialized ''game.nes''), Paint 0, Print Got_initial_frame,
       Call_step 0 0, Paint 1, Call_step 1 0, Paint 2, Call_step 2 0,
       Print (Step_failed (LibraryError ''boom'')),
       Print Frame_from_step_None]\<rparr>"
  by (simp add: method_defs stub_def)

text \<open>
  Claim C4. A stub engine whose first \<^verbatim>\<open>step\<close> raises, so that the first tick's
  \<^verbatim>\<open>step\<close> reports \<^verbatim>\<open>done = True\<close>: after Load and Start no timer is pending and
  \<^verbatim>\<open>after_id\<close> is \<^verbatim>\<open>None\<close>, but the button still reads \<^verbatim>\<open>Pause\<close>.
\<close>

theorem done_tick_leaves_button_label:
  "fst (NESSystem_step (stub 1) 0 \<lparr>rom_path = ''/roms/game.nes'', env = Some 0\<rparr>) =
     Inr (None, True)
   \<and> run (stub 1) [Click_Load ''/roms/game.nes'', Click_Start] init_world =
   \<lparr>nes = Some \<lparr>rom_path = ''/roms/game.nes'', env = Some 1\<rparr>,
    current_action = 0, after_id = None, frame_image = Some 0,
    keys_pressed = [], start_btn_text = ''Pause'', start_btn_enabled = True,
    reset_btn_enabled = True, status = ''Frame error'', timers = {},
    next_timer = 0, destroyed = False,
    trace =
      [Call_NESEnv ''/roms/game.nes'', Call_reset 0,
       Print (Initialized ''game.nes''), Paint 0, Print Got_initial_frame,
       Call_step 0 0, Print (Step_failed (LibraryError ''boom'')),
       Print Frame_from_step_None]\<rparr>"
  by (simp add: method_defs stub_def)

text \<open>A tick with a handle whose session is open calls the engine's \<^verbatim>\<open>step\<close> first.\<close>

lemma schedule_frame_calls_step:
  assumes "nes w = Some h" and "env h = Some e"
  shows "\<exists>rest. trace (snd (schedule_frame E w)) = trace w @ Call_step e (current_action w) # rest"
  using assms
  by (auto simp: schedule_frame_def NESSystem_step_def step_try_def render_frame_def
      render_try_def emit_def after_schedule_def Let_def
      split: option.splits prod.splits sum.splits)

text \<open>
  Claim C5. When a tick's \<^verbatim>\<open>step\<close> yields no frame with \<^verbatim>\<open>done = False\<close> (the
  engine's step returns and leaves no current frame), no exception leaves the tick, no
  timer is scheduled and \<^verbatim>\<open>after_id\<close> is \<^verbatim>\<open>None\<close>, the status line reads
  \<^verbatim>\<open>Frame error\<close>, and the handle is kept with its session open: nothing is closed.
  The control acts as Start again: pressing it takes the Start branch of
  \<^verbatim>\<open>toggle_run\<close>, which runs a tick that calls \<^verbatim>\<open>step\<close> on the same session.
\<close>

theorem null_frame_tick_stops_and_can_retry:
  assumes "nes w = Some h" and "env h = Some e"
    and "env_step E (current_action w) e = (e', None)" and "env_screen E e' = None"
  shows "fst (NESSystem_step E (current_action w) h) = Inr (None, False)
     \<and> fst (schedule_frame E w) = None
     \<and> after_id (snd (schedule_frame E w)) = None
     \<and> timers (snd (schedule_frame E w)) = timers w
     \<and> status (snd (schedule_frame E w)) = ''Frame error''
     \<and> nes (snd (schedule_frame E w)) = Some (h\<lparr>env := Some e'\<rparr>)
     \<and> trace (snd (schedule_frame E w)) =
         trace w @ [Call_step e (current_action w), Print Frame_is_None_warning,
                    Print Frame_from_step_None]
     \<and> toggle_run E (snd (schedule_frame E w)) =
         schedule_frame E
           ((snd (schedule_frame E w))\<lparr>start_btn_text := ''Pause'', status := ''Running''\<rparr>)
     \<and> (\<exists>rest. trace (snd (toggle_run E (snd (schedule_frame E w)))) =
           trace (snd (schedule_frame E w)) @ Call_step e' (current_action w) # rest)"
proof -
  let ?w' = "w\<lparr>nes := Some (h\<lparr>env := Some e'\<rparr>),
                trace := trace w @ [Call_step e (current_action w), Print Frame_is_None_warning,
                                    Print Frame_from_step_None],
                status := ''Frame error'', after_id := None\<rparr>"
  have s: "NESSystem_step E (current_action w) h =
      (Inr (None, False), h\<lparr>env := Some e'\<rparr>,
       [Call_step e (current_action w), Print Frame_is_None_warning])"
    using assms by (simp add: NESSystem_step_def step_try_def)
  have t: "schedule_frame E w = (None, ?w')"
    using assms(1) s by (simp add: schedule_frame_def emit_def)
  have r: "toggle_run E ?w' = schedule_frame E (?w'\<lparr>start_btn_text := ''Pause'', status := ''Running''\<rparr>)"
    by (simp add: toggle_run_def)
  from schedule_frame_calls_step
    [of "?w'\<lparr>start_btn_text := ''Pause'', status := ''Running''\<rparr>" "h\<lparr>env := Some e'\<rparr>" e' E]
  have c: "\<exists>rest. trace (snd (toggle_run E ?w')) = trace ?w' @ Call_step e' (current_action w) # rest"
    by (simp add: r)
  from s t r c show ?thesis by simp
qed

theorem null_frame_tick_stops_and_can_retry_witness:
  "nes (run stub_blank [Click_Load ''/roms/game.nes''] init_world) =
     Some \<lparr>rom_path = ''/roms/game.nes'', env = Some 0\<rparr>
   \<and> env_step stub_blank 0 0 = (1, None)
   \<and> env_screen stub_blank 1 = None
   \<and> fst (NESSystem_step stub_blank 0 \<lparr>rom_path = ''/roms/game.nes'', env = Some 0\<rparr>) =
       Inr (None, False)
   \<and> schedule_frame stub_blank (run stub_blank [Click_Load ''/roms/game.nes''] init_world) =
       (None,
        \<lparr>nes = Some \<lparr>rom_path = ''/roms/game.nes'', env = Some 1\<rparr>,
         current_action = 0, after_id = None, frame_image = Some 0,
         keys_pressed = [], start_btn_text = ''Start'', start_btn_enabled = True,
         reset_btn_enabled = True, status = ''Frame error'', timers = {},
         next_timer = 0, destroyed = False,
         trace =
           [Call_NESEnv ''/roms/game.nes'', Call_reset 0, Print (Initialized ''game.nes''),
            Paint 0, Print Got_initial_frame,
            Call_step 0 0, Print Frame_is_None_warning, Print Frame_from_step_None]\<rparr>)
   \<and> trace (run stub_blank [Click_Load ''/roms/game.nes'', Click_Start, Click_Start] init_world) =
      [Call_NESEnv ''/roms/game.nes'', Call_reset 0,
       Print (Initialized ''game.nes''), Paint 0, Print Got_initial_frame,
       Call_step 0 0, Print Frame_is_None_warning,
       Print Frame_from_step_None, Call_step 1 0,
       Print Frame_is_None_warning, Print Frame_from_step_None]"
proof -
  let ?w = "run stub_blank [Click_Load ''/roms/game.nes''] init_world"
  let ?h = "\<lparr>rom_path = ''/roms/game.nes'', env = Some (0::nat)\<rparr>"
  have n: "nes ?w = Some ?h"
    by (simp add: method_defs stub_defs)
  have e: "env ?h = Some 0"
    by simp
  have c: "current_action ?w = 0"
    by (simp add: method_defs stub_defs)
  have s: "env_step stub_blank (current_action ?w) 0 = (1, None)"
    by (simp add: c stub_defs)
  have f: "env_screen stub_blank 1 = None"
    by (simp add: stub_defs)
  from null_frame_tick_stops_and_can_retry [OF n e s f] n s f c
  show ?thesis
    by (simp add: method_defs stub_defs)
qed

text \<open>
  The branch of \<^verbatim>\<open>schedule_frame\<close> that shows \<^verbatim>\<open>Game Over\<close> needs a frame
  together with \<^verbatim>\<open>done = True\<close>, which \<^verbatim>\<open>step\<close> never returns: in no run of the
  program does the status line read \<^verbatim>\<open>Game Over\<close>.
\<close>

lemma render_frame_status: "render_frame E f w = (x, w') \<Longrightarrow> status w' = status w"
  by (auto simp: render_frame_def render_try_def emit_def split: option.splits)

lemma step_with_frame_not_done:
  "NESSystem_step E a h = (Inr (Some f, done), h', es) \<Longrightarrow> \<not> done"
  by (auto simp: NESSystem_step_def step_try_def split: option.splits prod.splits sum.splits)

lemma schedule_frame_status:
  "schedule_frame E w = (x, w') \<Longrightarrow> status w \<noteq> ''Game Over'' \<Longrightarrow> status w' \<noteq> ''Game Over''"
  by (auto simp: schedule_frame_def emit_def after_schedule_def Let_def
      split: option.splits prod.splits sum.splits if_splits
      dest: render_frame_status step_with_frame_not_done)

lemma toggle_run_status:
  "toggle_run E w = (x, w') \<Longrightarrow> status w \<noteq> ''Game Over'' \<Longrightarrow> status w' \<noteq> ''Game Over''"
  by (auto simp: toggle_run_def after_cancel_def split: option.splits
      dest!: schedule_frame_status)

lemma load_try_status:
  "load_try E p w = (x, w') \<Longrightarrow> status w \<noteq> ''Game Over'' \<Longrightarrow> status w' \<noteq> ''Game Over''"
  by (auto simp: load_try_def emit_def Let_def
      split: option.splits prod.splits sum.splits dest: render_frame_status)

lemma load_rom_status:
  "load_rom E p w = (x, w') \<Longrightarrow> status w \<noteq> ''Game Over'' \<Longrightarrow> status w' \<noteq> ''Game Over''"
  by (auto simp: load_rom_def emit_def
      split: option.splits prod.splits sum.splits if_splits dest!: load_try_status)

lemma reset_rom_status:
  "reset_rom E w = (x, w') \<Longrightarrow> status w \<noteq> ''Game Over'' \<Longrightarrow> status w' \<noteq> ''Game Over''"
  by (auto simp: reset_rom_def emit_def after_cancel_def Let_def
      split: option.splits prod.splits sum.splits dest: render_frame_status)

lemma on_close_status:
  "on_close E w = (x, w') \<Longrightarrow> status w' = status w"
  by (auto simp: on_close_def emit_def after_cancel_def Let_def
      split: option.splits prod.splits sum.splits)

lemma report_status: "status (report (x, w)) = status w"
  by (simp add: report_def emit_def split: option.splits)

lemma deliver_status:
  assumes "status w \<noteq> ''Game Over''"
  shows "status (deliver E i w) \<noteq> ''Game Over''"
proof (cases "destroyed w")
  case True
  with assms show ?thesis by (simp add: deliver_def)
next
  case False
  show ?thesis
  proof (cases i)
    case (Click_Load p)
    obtain x w' where r: "load_rom E p w = (x, w')" by (cases "load_rom E p w")
    from load_rom_status [OF r assms] r False Click_Load show ?thesis
      by (simp add: deliver_def report_status)
  next
    case Click_Start
    obtain x w' where r: "toggle_run E w = (x, w')" by (cases "toggle_run E w")
    from toggle_run_status [OF r assms] r False Click_Start assms show ?thesis
      by (simp add: deliver_def report_status)
  next
    case Click_Reset
    obtain x w' where r: "reset_rom E w = (x, w')" by (cases "reset_rom E w")
    from reset_rom_status [OF r assms] r False Click_Reset assms show ?thesis
      by (simp add: deliver_def report_status)
  next
    case (Key_Press k)
    with False assms show ?thesis
      by (simp add: deliver_def on_key_press_def update_action_def)
  next
    case (Key_Release k)
    with False assms show ?thesis
      by (simp add: deliver_def on_key_release_def update_action_def)
  next
    case (Timer_Fires t)
    obtain x w' where r: "schedule_frame E (w\<lparr>timers := timers w - {t}\<rparr>) = (x, w')"
      by (cases "schedule_frame E (w\<lparr>timers := timers w - {t}\<rparr>)")
    from schedule_frame_status [OF r] r False Timer_Fires assms show ?thesis
      by (simp add: deliver_def report_status)
  next
    case Window_Close
    obtain x w' where r: "on_close E w = (x, w')" by (cases "on_close E w")
    from on_close_status [OF r] r False Window_Close assms show ?thesis
      by (simp add: deliver_def report_status)
  qed
qed

lemma game_over_is_never_shown: "status (run E inputs init_world) \<noteq> ''Game Over''"
proof -
  have "status w \<noteq> ''Game Over'' \<Longrightarrow> status (run E inputs w) \<noteq> ''Game Over''" for w :: "('a, 'b) world"
    unfolding run_def by (induction inputs arbitrary: w) (simp_all add: deliver_status)
  then show ?thesis by (simp add: init_world_def)
qed

text \<open>No exception leaves \<^verbatim>\<open>render_frame\<close>.\<close>

lemma render_frame_never_raises: "fst (render_frame E f w) = None"
  by (simp add: render_frame_def render_try_def split: option.splits)

text \<open>
  Claim C8. In a tick whose \<^verbatim>\<open>step\<close> delivers a frame, whatever happens while the
  frame is converted and painted, no exception leaves \<^verbatim>\<open>render_frame\<close> or the tick,
  and the tick schedules the next one; when the conversion or the painting raises, the
  failure is printed and nothing is drawn.
\<close>

theorem paint_failure_keeps_loop_running:
  assumes "nes w = Some h" and "env h = Some e"
    and "env_step E (current_action w) e = (e', None)" and "env_screen E e' = Some f"
  shows "fst (schedule_frame E w) = None
     \<and> fst (render_frame E f v) = None
     \<and> after_id (snd (schedule_frame E w)) = Some (next_timer w)
     \<and> timers (snd (schedule_frame E w)) = insert (next_timer w) (timers w)
     \<and> (\<forall>x. fst (render_try E f w) = Some x \<longrightarrow>
          trace (snd (schedule_frame E w)) =
            trace w @ [Call_step e (current_action w), Print (Render_failed x)])"
  using assms
  by (simp add: schedule_frame_def NESSystem_step_def step_try_def render_frame_def render_try_def
      emit_def after_schedule_def split: option.splits)

theorem paint_failure_keeps_loop_running_witness:
  "nes (run stub_nopaint [Click_Load ''/roms/game.nes''] init_world) =
     Some \<lparr>rom_path = ''/roms/game.nes'', env = Some 0\<rparr>
   \<and> env_step stub_nopaint 0 0 = (1, None)
   \<and> env_screen stub_nopaint 1 = Some 1
   \<and> fst (render_try stub_nopaint 1 (run stub_nopaint [Click_Load ''/roms/game.nes''] init_world)) =
       Some (LibraryError ''no canvas'')
   \<and> schedule_frame stub_nopaint (run stub_nopaint [Click_Load ''/roms/game.nes''] init_world) =
       (None,
        \<lparr>nes = Some \<lparr>rom_path = ''/roms/game.nes'', env = Some 1\<rparr>,
         current_action = 0, after_id = Some 0, frame_image = Some 1,
         keys_pressed = [], start_btn_text = ''Start'', start_btn_enabled = True,
         reset_btn_enabled = True, status = ''Loaded: game.nes'', timers = {0},
         next_timer = 1, destroyed = False,
         trace =
           [Call_NESEnv ''/roms/game.nes'', Call_reset 0, Print (Initialized ''game.nes''),
            Print (Render_failed (LibraryError ''no canvas'')), Print Got_initial_frame,
            Call_step 0 0, Print (Render_failed (LibraryError ''no canvas''))]\<rparr>)"
proof -
  let ?w = "run stub_nopaint [Click_Load ''/roms/game.nes''] init_world"
  let ?h = "\<lparr>rom_path = ''/roms/game.nes'', env = Some (0::nat)\<rparr>"
  have n: "nes ?w = Some ?h"
    by (simp add: method_defs stub_defs)
  have e: "env ?h = Some 0"
    by simp
  have c: "current_action ?w = 0"
    by (simp add: method_defs stub_defs)
  have s: "env_step stub_nopaint (current_action ?w) 0 = (1, None)"
    by (simp add: c stub_defs)
  have f: "env_screen stub_nopaint 1 = Some 1"
    by (simp add: stub_defs)
  from paint_failure_keeps_loop_running [OF n e s f] n s f c
  show ?thesis
    by (simp add: method_defs stub_defs)
qed

section \<open>Reset\<close>

text \<open>
  Claim C9. Reset with a ROM loaded, whether a tick is pending (Running) or not (Paused),
  when the engine's reset returns and leaves a current frame: the pending tick is
  cancelled, the engine's reset is called once, the frame is painted at once (or, when
  the painting raises, the failure is printed), the button reads \<^verbatim>\<open>Start\<close>, and no
  tick is scheduled.
\<close>

theorem reset_returns_to_paused:
  assumes "nes w = Some h" and "env h = Some e"
    and "env_reset E e = (e', None)" and "env_screen E e' = Some f"
  shows "fst (reset_rom E w) = None
     \<and> after_id (snd (reset_rom E w)) = None
     \<and> timers (snd (reset_rom E w)) = timers w - set_option (after_id w)
     \<and> start_btn_text (snd (reset_rom E w)) = ''Start''
     \<and> status (snd (reset_rom E w)) = ''Reset''
     \<and> nes (snd (reset_rom E w)) = Some (h\<lparr>env := Some e'\<rparr>)
     \<and> trace (snd (reset_rom E w)) =
         trace w @ [Call_reset e, Print ROM_reset] @
           (case fst (render_try E f w) of
              None \<Rightarrow> [Paint f]
            | Some x \<Rightarrow> [Print (Render_failed x)])"
  using assms
  by (simp add: reset_rom_def NESSystem_reset_def NESSystem_screen_def render_frame_def
      render_try_def emit_def after_cancel_def split: option.splits)

theorem reset_returns_to_paused_witness:
  "nes (run (stub 0) [Click_Load ''/roms/game.nes'', Click_Start] init_world) =
     Some \<lparr>rom_path = ''/roms/game.nes'', env = Some 1\<rparr>
   \<and> after_id (run (stub 0) [Click_Load ''/roms/game.nes'', Click_Start] init_world) = Some 0
   \<and> timers (run (stub 0) [Click_Load ''/roms/game.nes'', Click_Start] init_world) = {0}
   \<and> start_btn_text (run (stub 0) [Click_Load ''/roms/game.nes'', Click_Start] init_world) = ''Pause''
   \<and> env_reset (stub 0) 1 = (1, None)
   \<and> env_screen (stub 0) 1 = Some 1
   \<and> reset_rom (stub 0) (run (stub 0) [Click_Load ''/roms/game.nes'', Click_Start] init_world) =
       (None,
        \<lparr>nes = Some \<lparr>rom_path = ''/roms/game.nes'', env = Some 1\<rparr>,
         current_action = 0, after_id = None, frame_image = Some 1,
         keys_pressed = [], start_btn_text = ''Start'', start_btn_enabled = True,
         reset_btn_enabled = True, status = ''Reset'', timers = {},
         next_timer = 1, destroyed = False,
         trace =
           [Call_NESEnv ''/roms/game.nes'', Call_reset 0, Print (Initialized ''game.nes''),
            Paint 0, Print Got_initial_frame, Call_step 0 0, Paint 1,
            Call_reset 1, Print ROM_reset, Paint 1]\<rparr>)"
proof -
  let ?w = "run (stub 0) [Click_Load ''/roms/game.nes'', Click_Start] init_world"
  let ?h = "\<lparr>rom_path = ''/roms/game.nes'', env = Some (1::nat)\<rparr>"
  have n: "nes ?w = Some ?h"
    by (simp add: method_defs stub_defs)
  have e: "env ?h = Some 1"
    by simp
  have r: "env_reset (stub 0) 1 = (1, None)"
    by (simp add: stub_defs)
  have f: "env_screen (stub 0) 1 = Some 1"
    by (simp add: stub_defs)
  from reset_returns_to_paused [OF n e r f] n r f
  show ?thesis
    by (simp add: method_defs stub_defs)
qed

section \<open>Keys\<close>

text \<open>The mapped keys and their flags.\<close>

lemma keymap_cases:
  "keymap k = Some v \<longleftrightarrow>
     (k = ''Right'' \<and> v = 1) \<or> (k = ''Left'' \<and> v = 2) \<or> (k = ''Down'' \<and> v = 4) \<or>
     (k = ''Up'' \<and> v = 8) \<or> (k = ''Return'' \<and> v = 16) \<or> (k = ''Shift_L'' \<and> v = 32) \<or>
     (k = ''x'' \<and> v = 64) \<or> (k = ''z'' \<and> v = 128)"
  by (simp add: keymap_def) 

lemma keymap_None:
  "keymap k = None \<longleftrightarrow>
     k \<noteq> ''Right'' \<and> k \<noteq> ''Left'' \<and> k \<noteq> ''Down'' \<and> k \<noteq> ''Up'' \<and> k \<noteq> ''Return'' \<and>
     k \<noteq> ''Shift_L'' \<and> k \<noteq> ''x'' \<and> k \<noteq> ''z''"
  by (simp add: keymap_def)

lemma insert_mask:
  "spec_bitmask S OR (case keymap k of Some v \<Rightarrow> v | None \<Rightarrow> 0) = spec_bitmask (insert k S)"
proof (cases "keymap k")
  case None
  then have "''Right'' \<noteq> k" "''Left'' \<noteq> k" "''Down'' \<noteq> k" "''Up'' \<noteq> k" "''Return'' \<noteq> k"
    "''Shift_L'' \<noteq> k" "''x'' \<noteq> k" "''z'' \<noteq> k"
    by (auto simp: keymap_None)
  with None show ?thesis by (simp add: spec_bitmask_def)
next
  case (Some v)
  then show ?thesis
    unfolding keymap_cases
    by (elim disjE conjE) (simp_all add: spec_bitmask_def keymap_def)
qed

lemma fold_mask:
  "fold (\<lambda>k action. action OR (case keymap k of Some v \<Rightarrow> v | None \<Rightarrow> 0)) ks (spec_bitmask S)
   = spec_bitmask (set ks \<union> S)"
  by (induction ks arbitrary: S) (simp_all add: insert_mask)

text \<open>No method of the application but the two key handlers touches the held keys or the bitmask.\<close>

lemma render_frame_keys:
  "render_frame E f w = (x, w') \<Longrightarrow>
     keys_pressed w' = keys_pressed w \<and> current_action w' = current_action w"
  by (auto simp: render_frame_def render_try_def emit_def split: option.splits)

lemma schedule_frame_keys:
  "schedule_frame E w = (x, w') \<Longrightarrow>
     keys_pressed w' = keys_pressed w \<and> current_action w' = current_action w"
  by (auto simp: schedule_frame_def emit_def after_schedule_def Let_def
      split: option.splits prod.splits sum.splits if_splits dest: render_frame_keys)

lemma toggle_run_keys:
  "toggle_run E w = (x, w') \<Longrightarrow>
     keys_pressed w' = keys_pressed w \<and> current_action w' = current_action w"
  by (auto simp: toggle_run_def after_cancel_def split: option.splits dest: schedule_frame_keys)

lemma load_try_keys:
  "load_try E p w = (x, w') \<Longrightarrow>
     keys_pressed w' = keys_pressed w \<and> current_action w' = current_action w"
  by (auto simp: load_try_def emit_def Let_def
      split: option.splits prod.splits sum.splits dest: render_frame_keys)

lemma load_rom_keys:
  "load_rom E p w = (x, w') \<Longrightarrow>
     keys_pressed w' = keys_pressed w \<and> current_action w' = current_action w"
  by (auto simp: load_rom_def emit_def
      split: option.splits prod.splits sum.splits if_splits dest: load_try_keys)

lemma reset_rom_keys:
  "reset_rom E w = (x, w') \<Longrightarrow>
     keys_pressed w' = keys_pressed w \<and> current_action w' = current_action w"
  by (auto simp: reset_rom_def emit_def after_cancel_def Let_def
      split: option.splits prod.splits sum.splits dest: render_frame_keys)

lemma on_close_keys:
  "on_close E w = (x, w') \<Longrightarrow>
     keys_pressed w' = keys_pressed w \<and> current_action w' = current_action w"
  by (auto simp: on_close_def emit_def after_cancel_def Let_def
      split: option.splits prod.splits sum.splits)

lemma report_keys:
  "keys_pressed (report (x, w)) = keys_pressed w \<and> current_action (report (x, w)) = current_action w"
  by (simp add: report_def emit_def split: option.splits)

text \<open>The invariant of the held keys holds in every state the main loop reaches.\<close>

lemma keys_inv_update: "set ks \<subseteq> dom keymap \<Longrightarrow> keys_inv (update_action (w\<lparr>keys_pressed := ks\<rparr>))"
  by (simp add: keys_inv_def update_action_def)

lemma keys_inv_same:
  assumes "keys_inv w" "keys_pressed w' = keys_pressed w \<and> current_action w' = current_action w"
  shows "keys_inv w'"
proof -
  from assms(1) have "current_action (update_action w) = current_action w"
    by (simp add: keys_inv_def)
  with assms(2) have "current_action (update_action w') = current_action w'"
    by (simp add: update_action_def)
  then have "update_action w' = w'"
    by (simp add: update_action_def)
  with assms show ?thesis by (simp add: keys_inv_def)
qed

lemma keys_inv_report:
  assumes "keys_inv w"
    and "\<And>x w'. r = (x, w') \<Longrightarrow>
           keys_pressed w' = keys_pressed w \<and> current_action w' = current_action w"
  shows "keys_inv (report r)"
proof (cases r)
  case (Pair x w')
  with assms(2) have "keys_pressed (report r) = keys_pressed w \<and>
      current_action (report r) = current_action w"
    by (simp add: report_keys)
  with assms(1) show ?thesis by (rule keys_inv_same)
qed

lemma deliver_keys_inv:
  assumes inv: "keys_inv w"
  shows "keys_inv (deliver E i w)"
proof (cases "destroyed w")
  case True
  with inv show ?thesis by (simp add: deliver_def)
next
  case False
  show ?thesis
  proof (cases i)
    case (Key_Press k)
    with False inv show ?thesis
      by (auto simp: deliver_def on_key_press_def set_add_def keys_inv_def
          intro!: keys_inv_update [unfolded keys_inv_def])
  next
    case (Key_Release k)
    with False inv show ?thesis
      by (auto simp: deliver_def on_key_release_def keys_inv_def
          intro!: keys_inv_update [unfolded keys_inv_def])
  next
    case (Click_Load p)
    with False inv show ?thesis
      by (auto simp: deliver_def intro!: keys_inv_report dest: load_rom_keys)
  next
    case Click_Start
    with False inv show ?thesis
      by (auto simp: deliver_def intro!: keys_inv_report dest: toggle_run_keys)
  next
    case Click_Reset
    with False inv show ?thesis
      by (auto simp: deliver_def intro!: keys_inv_report dest: reset_rom_keys)
  next
    case (Timer_Fires t)
    with False inv show ?thesis
      by (auto simp: deliver_def intro!: keys_inv_report dest: schedule_frame_keys)
  next
    case Window_Close
    with False inv show ?thesis
      by (auto simp: deliver_def intro!: keys_inv_report dest: on_close_keys)
  qed
qed

lemma run_keys_inv: "keys_inv w \<Longrightarrow> keys_inv (run E inputs w)"
  unfolding run_def by (induction inputs arbitrary: w) (simp_all add: deliver_keys_inv)

lemma init_keys_inv: "keys_inv init_world"
  by (simp add: keys_inv_def init_world_def update_action_def)

text \<open>What \<^verbatim>\<open>update_action\<close> computes is the bitwise OR of the specification.\<close>

lemma spec_bitmask_empty: "spec_bitmask {} = 0"
  by (simp add: spec_bitmask_def)

lemma update_action_mask:
  "current_action (update_action w) = spec_bitmask (set (keys_pressed w))"
  using fold_mask [of "keys_pressed w" "{}"]
  by (simp add: update_action_def spec_bitmask_empty)

text \<open>Every set of mapped keys can be held: press its keys one after the other.\<close>

lemma press_keeps_window: "destroyed (on_key_press k w) = destroyed w"
  by (simp add: on_key_press_def update_action_def)

lemma press_all_keys:
  "\<not> destroyed w \<Longrightarrow> set ks \<subseteq> dom keymap \<Longrightarrow>
     set (keys_pressed (run E (map Key_Press ks) w)) = set (keys_pressed w) \<union> set ks"
proof (induction ks arbitrary: w)
  case Nil
  then show ?case by (simp add: run_def)
next
  case (Cons k ks)
  let ?w = "deliver E (Key_Press k) w"
  from Cons.prems have w: "?w = on_key_press k w"
    by (simp add: deliver_def)
  from Cons.prems have k: "keymap k \<noteq> None" by auto
  have "set (keys_pressed ?w) = insert k (set (keys_pressed w))"
    using k by (auto simp: w on_key_press_def update_action_def set_add_def)
  moreover have "\<not> destroyed ?w"
    using Cons.prems by (simp add: w press_keeps_window)
  moreover have "run E (map Key_Press (k # ks)) w = run E (map Key_Press ks) ?w"
    by (simp add: run_def)
  ultimately show ?case
    using Cons.IH [of ?w] Cons.prems by auto
qed

text \<open>
  Claim C2. In every state the program reaches, the controller bitmask is the bitwise OR
  of the flags of the keys held; every set of mapped keys is held after its keys have been
  pressed, in any order; and the bitwise OR over no key is 0.
\<close>

theorem bitmask_is_or_of_held_keys:
  "current_action (run E inputs init_world) =
     spec_bitmask (set (keys_pressed (run E inputs init_world)))
   \<and> (set ks \<subseteq> dom keymap \<longrightarrow>
        set (keys_pressed (run E (map Key_Press ks) init_world)) = set ks
        \<and> current_action (run E (map Key_Press ks) init_world) = spec_bitmask (set ks))
   \<and> spec_bitmask {} = 0"
proof (intro conjI impI)
  let ?w = "run E inputs init_world"
  from run_keys_inv [OF init_keys_inv, of E inputs] have "update_action ?w = ?w"
    by (simp add: keys_inv_def)
  with update_action_mask [of ?w]
  show "current_action ?w = spec_bitmask (set (keys_pressed ?w))" by simp
next
  assume "set ks \<subseteq> dom keymap"
  with press_all_keys [of init_world ks E]
  show held: "set (keys_pressed (run E (map Key_Press ks) init_world)) = set ks"
    by (simp add: init_world_def)
  let ?w = "run E (map Key_Press ks) init_world"
  from run_keys_inv [OF init_keys_inv, of E "map Key_Press ks"] have "update_action ?w = ?w"
    by (simp add: keys_inv_def)
  with update_action_mask [of ?w] held
  show "current_action ?w = spec_bitmask (set ks)" by simp
next
  show "spec_bitmask {} = 0" by (rule spec_bitmask_empty)
qed

theorem bitmask_is_or_of_held_keys_witness:
  "set [''Up'', ''z'', ''Left''] \<subseteq> dom keymap
   \<and> set (keys_pressed (run (stub 0) (map Key_Press [''Up'', ''z'', ''Left'']) init_world)) =
       {''Up'', ''z'', ''Left''}
   \<and> current_action (run (stub 0) (map Key_Press [''Up'', ''z'', ''Left'']) init_world) = 138
   \<and> spec_bitmask {''Up'', ''z'', ''Left''} = 138"
proof -
  have d: "set [''Up'', ''z'', ''Left''] \<subseteq> dom keymap"
    by (simp add: keymap_def)
  have m: "spec_bitmask {''Up'', ''z'', ''Left''} = 138"
    by (simp add: spec_bitmask_def)
  from bitmask_is_or_of_held_keys
    [of "stub 0" "map Key_Press [''Up'', ''z'', ''Left'']" "[''Up'', ''z'', ''Left'']"] d m
  show ?thesis by auto
qed

text \<open>
  Claim C7. In every state the program reaches, a key-down event for a mapped key that
  is already held changes nothing: not the held keys, not the bitmask, nor anything else.
\<close>

theorem repeated_key_press_is_idempotent:
  assumes "keymap k \<noteq> None" and "k \<in> set (keys_pressed (run E inputs init_world))"
  shows "on_key_press k (run E inputs init_world) = run E inputs init_world
     \<and> keys_pressed (deliver E (Key_Press k) (run E inputs init_world)) =
         keys_pressed (run E inputs init_world)
     \<and> current_action (deliver E (Key_Press k) (run E inputs init_world)) =
         current_action (run E inputs init_world)"
proof -
  let ?w = "run E inputs init_world"
  from run_keys_inv [OF init_keys_inv, of E inputs] have "update_action ?w = ?w"
    by (simp add: keys_inv_def)
  with assms have "on_key_press k ?w = ?w"
    by (simp add: on_key_press_def set_add_def)
  then show ?thesis
    by (simp add: deliver_def)
qed

theorem repeated_key_press_is_idempotent_witness:
  "keymap ''x'' \<noteq> None
   \<and> ''x'' \<in> set (keys_pressed (run (stub 0) [Key_Press ''Up'', Key_Press ''x''] init_world))
   \<and> current_action (run (stub 0) [Key_Press ''Up'', Key_Press ''x''] init_world) = 72
   \<and> on_key_press ''x'' (run (stub 0) [Key_Press ''Up'', Key_Press ''x''] init_world) =
       run (stub 0) [Key_Press ''Up'', Key_Press ''x''] init_world
   \<and> keys_pressed (run (stub 0) [Key_Press ''Up'', Key_Press ''x'', Key_Press ''x''] init_world) =
       [''Up'', ''x'']
   \<and> current_action (run (stub 0) [Key_Press ''Up'', Key_Press ''x'', Key_Press ''x''] init_world) = 72"
proof -
  have k: "keymap ''x'' \<noteq> None"
    by (simp add: keymap_def)
  have h: "''x'' \<in> set (keys_pressed (run (stub 0) [Key_Press ''Up'', Key_Press ''x''] init_world))"
    by (simp add: run_def deliver_def init_world_def on_key_press_def update_action_def
        set_add_def keymap_def)
  have c: "current_action (run (stub 0) [Key_Press ''Up'', Key_Press ''x''] init_world) = 72"
    and ks: "keys_pressed (run (stub 0) [Key_Press ''Up'', Key_Press ''x''] init_world) = [''Up'', ''x'']"
    by (simp_all add: run_def deliver_def init_world_def on_key_press_def update_action_def
        set_add_def keymap_def)
  have r: "run (stub 0) [Key_Press ''Up'', Key_Press ''x'', Key_Press ''x''] init_world =
      deliver (stub 0) (Key_Press ''x'') (run (stub 0) [Key_Press ''Up'', Key_Press ''x''] init_world)"
    by (simp add: run_def)
  from repeated_key_press_is_idempotent [OF k h] k h c ks r
  show ?thesis by simp
qed

section \<open>Loading a second ROM\<close>

text \<open>The count of handles alive along a trace.\<close>

lemma open_handles_simps [simp]:
  "open_handles [] = 0"
  "open_handles (e # es) = handle_delta e + open_handles es"
  "open_handles (t @ es) = open_handles t + open_handles es"
  by (simp_all add: open_handles_def)

lemma at_most_one_start: "at_most_one c es \<Longrightarrow> c = 0 \<or> c = 1"
  by (cases es) auto

lemma at_most_one_append:
  "at_most_one c (t @ es) = (at_most_one c t \<and> at_most_one (c + open_handles t) es)"
  by (induction t arbitrary: c) (auto simp: ac_simps dest: at_most_one_start)

lemma at_most_one_take:
  "at_most_one c t \<Longrightarrow> 0 \<le> c + open_handles (take n t) \<and> c + open_handles (take n t) \<le> 1"
proof (induction t arbitrary: c n)
  case Nil
  then show ?case by auto
next
  case (Cons e t)
  show ?case
  proof (cases n)
    case 0
    with Cons.prems show ?thesis by auto
  next
    case (Suc m)
    from Cons.prems have "at_most_one (c + handle_delta e) t" by simp
    from Cons.IH [OF this, of m] Suc show ?thesis by (simp add: ac_simps)
  qed
qed

lemma neutral_at_most_one:
  "list_all (\<lambda>e. handle_delta e = 0) es \<Longrightarrow> at_most_one c es = (c = 0 \<or> c = 1)"
  by (induction es arbitrary: c) auto

lemma neutral_open: "list_all (\<lambda>e. handle_delta e = 0) es \<Longrightarrow> open_handles es = 0"
  by (induction es) auto

text \<open>
  What each method adds to the trace: only the constructor prints \<^verbatim>\<open>Initialized\<close>, and
  only \<^verbatim>\<open>close\<close> prints \<^verbatim>\<open>Closed NES environment\<close>.
\<close>

lemma render_frame_trace:
  "render_frame E f w = (x, w') \<Longrightarrow>
     nes w' = nes w \<and> (\<exists>es. trace w' = trace w @ es \<and> list_all (\<lambda>e. handle_delta e = 0) es)"
  by (auto simp: render_frame_def render_try_def emit_def split: option.splits)

lemma step_events:
  "NESSystem_step E a h = (r, h', es) \<Longrightarrow>
     list_all (\<lambda>e. handle_delta e = 0) es \<and> (env h' = None \<longleftrightarrow> env h = None)"
  by (auto simp: NESSystem_step_def step_try_def split: option.splits prod.splits sum.splits)

lemma reset_events:
  "NESSystem_reset E h = (r, h', es) \<Longrightarrow>
     list_all (\<lambda>e. handle_delta e = 0) es \<and> (env h' = None \<longleftrightarrow> env h = None)"
  by (auto simp: NESSystem_reset_def split: option.splits prod.splits sum.splits)

lemma close_events:
  "NESSystem_close E h = (r, h', es) \<Longrightarrow>
     (case r of
        Inl x \<Rightarrow> es = [Call_close (the (env h))] \<and> env h \<noteq> None \<and> env h' \<noteq> None
      | Inr u \<Rightarrow> env h' = None \<and>
          (if env h = None then es = [] else es = [Call_close (the (env h)), Print Closed_environment]))"
  by (auto simp: NESSystem_close_def split: option.splits prod.splits sum.splits)

lemma init_events:
  "NESSystem_init E p = (r, es) \<Longrightarrow>
     (case r of
        Inl x \<Rightarrow> list_all (\<lambda>e. handle_delta e = 0) es
      | Inr h \<Rightarrow> env h \<noteq> None \<and> (\<exists>e. es = [Call_NESEnv p, Call_reset e, Print (Initialized (basename p))]))"
  by (auto simp: NESSystem_init_def split: option.splits prod.splits sum.splits)

text \<open>Every method of the application keeps the invariant of the handles.\<close>

lemmas handle_simps = handle_inv_def at_most_one_append neutral_at_most_one neutral_open emit_def

lemma schedule_frame_handles:
  "schedule_frame E w = (x, w') \<Longrightarrow> handle_inv w \<Longrightarrow> handle_inv w'"
  by (auto simp: schedule_frame_def after_schedule_def Let_def handle_simps
      split: option.splits prod.splits sum.splits if_splits
      dest!: render_frame_trace step_events)

lemma toggle_run_handles:
  "toggle_run E w = (x, w') \<Longrightarrow> handle_inv w \<Longrightarrow> handle_inv w'"
  by (auto simp: toggle_run_def after_cancel_def handle_inv_def split: option.splits
      dest!: schedule_frame_handles [where w = "w\<lparr>start_btn_text := ''Pause'', status := ''Running''\<rparr>"])

lemma load_try_handles:
  "load_try E p w = (x, w') \<Longrightarrow> handle_inv w \<Longrightarrow> nes w = None \<Longrightarrow> handle_inv w'"
  by (auto simp: load_try_def Let_def handle_simps NESSystem_screen_def
      split: option.splits prod.splits sum.splits if_splits
      dest!: render_frame_trace init_events)

lemma load_rom_handles:
  "load_rom E p w = (x, w') \<Longrightarrow> handle_inv w \<Longrightarrow> handle_inv w'"
proof (cases "p = []")
  case True
  then show "load_rom E p w = (x, w') \<Longrightarrow> handle_inv w \<Longrightarrow> handle_inv w'"
    by (simp add: load_rom_def)
next
  case False
  assume r: "load_rom E p w = (x, w')" and inv: "handle_inv w"
  define c where "c = (case nes w of
                 None \<Rightarrow> (None, w)
               | Some h \<Rightarrow>
                   (case NESSystem_close E h of
                      (Inl x, h', es) \<Rightarrow> (Some x, emit es (w\<lparr>nes := Some h'\<rparr>))
                    | (Inr u, h', es) \<Rightarrow> (None, emit es (w\<lparr>nes := None\<rparr>))))"
  have c_inv: "handle_inv (snd c) \<and> (fst c = None \<longrightarrow> nes (snd c) = None)"
    using inv unfolding c_def
    by (auto simp: handle_simps split: option.splits prod.splits sum.splits if_splits
        dest!: close_events)
  show "handle_inv w'"
  proof (cases "fst c")
    case (Some y)
    with r False c_inv show ?thesis
      by (cases c) (simp add: load_rom_def c_def [symmetric])
  next
    case None
    obtain y w2 where t: "load_try E p (snd c) = (y, w2)"
      by (cases "load_try E p (snd c)")
    from load_try_handles [OF t] c_inv None have "handle_inv w2" by simp
    moreover have "w' = (case y of Some z \<Rightarrow> (emit [Show_error z] w2)\<lparr>status := ''Load failed''\<rparr> | None \<Rightarrow> w2)"
      using r False None t by (cases c) (auto simp: load_rom_def c_def [symmetric] split: option.splits)
    ultimately show ?thesis
      by (auto simp: handle_simps split: option.splits)
  qed
qed

lemma reset_rom_handles:
  "reset_rom E w = (x, w') \<Longrightarrow> handle_inv w \<Longrightarrow> handle_inv w'"
  by (auto simp: reset_rom_def after_cancel_def Let_def handle_simps NESSystem_screen_def
      split: option.splits prod.splits sum.splits if_splits
      dest!: render_frame_trace reset_events)

lemma on_close_handles:
  "on_close E w = (x, w') \<Longrightarrow> handle_inv w \<Longrightarrow> handle_inv w'"
  by (auto simp: on_close_def after_cancel_def Let_def handle_simps
      split: option.splits prod.splits sum.splits if_splits
      dest!: close_events)

lemma report_handles:
  assumes "handle_inv w" and "\<And>x w'. r = (x, w') \<Longrightarrow> handle_inv w'"
  shows "handle_inv (report r)"
proof (cases r)
  case (Pair x w')
  with assms(2) have "handle_inv w'" by simp
  with Pair show ?thesis
    by (auto simp: report_def handle_simps split: option.splits)
qed

lemma key_handles:
  "handle_inv w \<Longrightarrow> handle_inv (on_key_press k w)"
  "handle_inv w \<Longrightarrow> handle_inv (on_key_release k w)"
  by (simp_all add: on_key_press_def on_key_release_def update_action_def handle_inv_def)

lemma deliver_handles:
  assumes inv: "handle_inv w"
  shows "handle_inv (deliver E i w)"
proof (cases "destroyed w")
  case True
  with inv show ?thesis by (simp add: deliver_def)
next
  case False
  have t: "handle_inv (w\<lparr>timers := T\<rparr>)" for T
    using inv by (simp add: handle_inv_def)
  show ?thesis
  proof (cases i)
    case (Key_Press k)
    with False inv show ?thesis by (simp add: deliver_def key_handles)
  next
    case (Key_Release k)
    with False inv show ?thesis by (simp add: deliver_def key_handles)
  next
    case (Click_Load p)
    with False inv show ?thesis
      by (auto simp: deliver_def intro!: report_handles dest: load_rom_handles)
  next
    case Click_Start
    with False inv show ?thesis
      by (auto simp: deliver_def intro!: report_handles dest: toggle_run_handles)
  next
    case Click_Reset
    with False inv show ?thesis
      by (auto simp: deliver_def intro!: report_handles dest: reset_rom_handles)
  next
    case (Timer_Fires t)
    with False inv show ?thesis
      using t by (auto simp: deliver_def intro!: report_handles dest: schedule_frame_handles)
  next
    case Window_Close
    with False inv show ?thesis
      by (auto simp: deliver_def intro!: report_handles dest: on_close_handles)
  qed
qed

lemma run_handles: "handle_inv w \<Longrightarrow> handle_inv (run E inputs w)"
  unfolding run_def by (induction inputs arbitrary: w) (simp_all add: deliver_handles)

lemma init_handles: "handle_inv init_world"
  by (simp add: handle_inv_def init_world_def)

text \<open>The \<^verbatim>\<open>try\<close> block of \<^verbatim>\<open>load_rom\<close> calls the constructor once and never \<^verbatim>\<open>close\<close>.\<close>

lemma load_try_trace:
  "load_try E p w = (x, w') \<Longrightarrow>
     \<exists>rest. trace w' = trace w @ Call_NESEnv p # rest
        \<and> (\<forall>e'. Call_close e' \<notin> set rest) \<and> (\<forall>q. Call_NESEnv q \<notin> set rest)"
  by (auto simp: load_try_def Let_def emit_def NESSystem_screen_def NESSystem_init_def
      render_frame_def render_try_def
      split: option.splits prod.splits sum.splits if_splits)

text \<open>
  Claim C6. When a ROM is chosen while a handle with an open session is loaded, the
  first engine call of \<^verbatim>\<open>load_rom\<close> is \<^verbatim>\<open>close\<close> on that session, and no other
  \<^verbatim>\<open>close\<close> follows; when it returns, the constructor of the second handle is called
  next, once; when it raises, nothing else is called. And at every moment of every run of
  the program, at most one handle is alive, and after every input it is the one the
  application holds.
\<close>

theorem second_rom_closes_first_handle:
  "(nes w = Some h \<and> env h = Some e \<and> path \<noteq> [] \<longrightarrow>
      (\<exists>rest. trace (snd (load_rom E path w)) = trace w @ Call_close e # rest
         \<and> (\<forall>e'. Call_close e' \<notin> set rest)
         \<and> (snd (env_close E e) = None \<longrightarrow>
              (\<exists>rest'. rest = Print Closed_environment # Call_NESEnv path # rest'
                 \<and> (\<forall>p. Call_NESEnv p \<notin> set rest')))
         \<and> (snd (env_close E e) \<noteq> None \<longrightarrow> rest = [])))
   \<and> 0 \<le> open_handles (take n (trace (run E inputs init_world)))
   \<and> open_handles (take n (trace (run E inputs init_world))) \<le> 1
   \<and> open_handles (trace (run E inputs init_world)) =
       (case nes (run E inputs init_world) of
          None \<Rightarrow> 0
        | Some h \<Rightarrow> (case env h of None \<Rightarrow> 0 | Some e \<Rightarrow> 1))"
proof (intro conjI impI)
  assume a: "nes w = Some h \<and> env h = Some e \<and> path \<noteq> []"
  obtain e' r where c: "env_close E e = (e', r)" by (cases "env_close E e")
  show "\<exists>rest. trace (snd (load_rom E path w)) = trace w @ Call_close e # rest
         \<and> (\<forall>e'. Call_close e' \<notin> set rest)
         \<and> (snd (env_close E e) = None \<longrightarrow>
              (\<exists>rest'. rest = Print Closed_environment # Call_NESEnv path # rest'
                 \<and> (\<forall>p. Call_NESEnv p \<notin> set rest')))
         \<and> (snd (env_close E e) \<noteq> None \<longrightarrow> rest = [])"
  proof (cases r)
    case (Some x)
    with a c show ?thesis
      by (simp add: load_rom_def NESSystem_close_def emit_def)
  next
    case None
    let ?w1 = "emit [Call_close e, Print Closed_environment] (w\<lparr>nes := None\<rparr>)"
    obtain y w2 where t: "load_try E path ?w1 = (y, w2)"
      by (cases "load_try E path ?w1")
    from load_try_trace [OF t] obtain rest where
      rest: "trace w2 = trace ?w1 @ Call_NESEnv path # rest"
        "\<forall>e'. Call_close e' \<notin> set rest" "\<forall>q. Call_NESEnv q \<notin> set rest"
      by blast
    have "trace (snd (load_rom E path w)) =
        trace w2 @ (case y of Some z \<Rightarrow> [Show_error z] | None \<Rightarrow> [])"
      using a c None t
      by (simp add: load_rom_def NESSystem_close_def emit_def split: option.splits)
    with rest c None show ?thesis
      by (auto simp: emit_def split: option.splits)
  qed
next
  from at_most_one_take [of 0 "trace (run E inputs init_world)" n]
    run_handles [OF init_handles, of E inputs]
  show "0 \<le> open_handles (take n (trace (run E inputs init_world)))"
    and "open_handles (take n (trace (run E inputs init_world))) \<le> 1"
    by (simp_all add: handle_inv_def)
next
  from run_handles [OF init_handles, of E inputs]
  show "open_handles (trace (run E inputs init_world)) =
       (case nes (run E inputs init_world) of
          None \<Rightarrow> 0
        | Some h \<Rightarrow> (case env h of None \<Rightarrow> 0 | Some e \<Rightarrow> 1))"
    by (simp add: handle_inv_def)
qed

theorem second_rom_closes_first_handle_witness:
  "nes (run (stub 0) [Click_Load ''/roms/a.nes''] init_world) =
     Some \<lparr>rom_path = ''/roms/a.nes'', env = Some 0\<rparr>
   \<and> ''/roms/b.nes'' \<noteq> []
   \<and> snd (env_close (stub 0) 0) = None
   \<and> trace (snd (load_rom (stub 0) ''/roms/b.nes''
        (run (stub 0) [Click_Load ''/roms/a.nes''] init_world))) =
       trace (run (stub 0) [Click_Load ''/roms/a.nes''] init_world) @
       [Call_close 0, Print Closed_environment, Call_NESEnv ''/roms/b.nes'', Call_reset 0,
        Print (Initialized ''b.nes''), Paint 0, Print Got_initial_frame]
   \<and> open_handles (take 7
        (trace (run (stub 0) [Click_Load ''/roms/a.nes'', Click_Load ''/roms/b.nes''] init_world))) = 0
   \<and> open_handles
        (trace (run (stub 0) [Click_Load ''/roms/a.nes'', Click_Load ''/roms/b.nes''] init_world)) = 1"
proof -
  let ?w = "run (stub 0) [Click_Load ''/roms/a.nes''] init_world"
  let ?h = "\<lparr>rom_path = ''/roms/a.nes'', env = Some (0::nat)\<rparr>"
  have n: "nes ?w = Some ?h"
    by (simp add: method_defs stub_defs)
  have c: "snd (env_close (stub 0) 0) = None"
    by (simp add: stub_defs)
  from second_rom_closes_first_handle
    [of ?w ?h 0 "''/roms/b.nes''" "stub 0" 7
        "[Click_Load ''/roms/a.nes'', Click_Load ''/roms/b.nes'']"] n c
  show ?thesis
    by (simp add: method_defs stub_defs)
qed

end
